theory Spec2Isabelle
  imports Main "HOL-Library.Multiset"
begin

section \<open>Python strings\<close>

text \<open>
  A Python \<open>str\<close> is a sequence of Unicode code points; slicing (\<open>s[:50]\<close>), \<open>startswith\<close>
  and \<open>in\<close> all count code points. The status texts of \<open>main.py\<close> contain characters
  beyond ASCII, so a string is modelled as the list of its code points.
\<close>

type_synonym pystr = "nat list"

definition ascii :: "string \<Rightarrow> pystr" where
  "ascii s = map of_char s"

text \<open>\<open>s.startswith(p)\<close>.\<close>

definition startswith :: "pystr \<Rightarrow> pystr \<Rightarrow> bool" where
  "startswith s p = (take (length p) s = p)"

text \<open>\<open>p in s\<close> for strings: \<open>p\<close> occurs in \<open>s\<close> as a contiguous substring.\<close>

fun str_contains :: "pystr \<Rightarrow> pystr \<Rightarrow> bool" where
  "str_contains p [] = (p = [])"
| "str_contains p (c # cs) = (startswith (c # cs) p \<or> str_contains p cs)"

text \<open>\<open>str(n)\<close> for an integer: decimal digits, with a minus sign for negatives.\<close>

fun str_digits :: "nat \<Rightarrow> pystr" where
  "str_digits n = (if n < 10 then [48 + n] else str_digits (n div 10) @ [48 + n mod 10])"

declare str_digits.simps [simp del]

definition str_int :: "int \<Rightarrow> pystr" where
  "str_int i = (if i < 0 then 45 # str_digits (nat (- i)) else str_digits (nat i))"

section \<open>The HTTP session\<close>

text \<open>
  \<open>requests\<close> is a library outside the repository, so the session is a parameter of the
  model: a call of \<open>session.head\<close> or \<open>session.get\<close> (timeout 10, redirects followed)
  either returns the final response or raises. The classes below are those of
  \<open>requests.exceptions\<close> that the handlers of \<open>check_link\<close> tell apart, with
  \<open>RequestException\<close> and \<open>Exception\<close> standing for every other error class
  (\<open>MissingSchema\<close>, \<open>InvalidSchema\<close>, \<open>InvalidURL\<close>, \<open>ChunkedEncodingError\<close>, \<open>ValueError\<close>,
  ...). Asynchronous interpreter exits (\<open>KeyboardInterrupt\<close>, \<open>SystemExit\<close>) are not
  results of a request and are outside the model.
\<close>

datatype exc_class =
    ReadTimeout | ConnectTimeout | Timeout
  | SSLError | ProxyError | ConnectionError
  | TooManyRedirects | RequestException | Exception

text \<open>
  The method resolution order of each class within this hierarchy:
  \<open>ConnectTimeout(ConnectionError, Timeout)\<close>, \<open>ReadTimeout(Timeout)\<close>,
  \<open>SSLError(ConnectionError)\<close>, \<open>ProxyError(ConnectionError)\<close>, and \<open>Timeout\<close>,
  \<open>ConnectionError\<close>, \<open>TooManyRedirects\<close> directly under \<open>RequestException\<close>.
\<close>

fun mro :: "exc_class \<Rightarrow> exc_class list" where
  "mro ReadTimeout = [ReadTimeout, Timeout, RequestException, Exception]"
| "mro ConnectTimeout = [ConnectTimeout, ConnectionError, Timeout, RequestException, Exception]"
| "mro Timeout = [Timeout, RequestException, Exception]"
| "mro SSLError = [SSLError, ConnectionError, RequestException, Exception]"
| "mro ProxyError = [ProxyError, ConnectionError, RequestException, Exception]"
| "mro ConnectionError = [ConnectionError, RequestException, Exception]"
| "mro TooManyRedirects = [TooManyRedirects, RequestException, Exception]"
| "mro RequestException = [RequestException, Exception]"
| "mro Exception = [Exception]"

text \<open>A raised exception: its class and \<open>str(e)\<close>.\<close>

record py_exception =
  exc_type :: exc_class
  exc_str :: pystr

definition isinstance :: "py_exception \<Rightarrow> exc_class \<Rightarrow> bool" where
  "isinstance e c = (c \<in> set (mro (exc_type e)))"

datatype response = Response (resp_status_code: int)

record session =
  head :: "pystr \<Rightarrow> py_exception + response"
  get :: "pystr \<Rightarrow> py_exception + response"

text \<open>The requests a probe sends, in order.\<close>

datatype request = HEAD pystr | GET pystr

fun is_GET :: "request \<Rightarrow> bool" where
  "is_GET (GET u) = True"
| "is_GET (HEAD u) = False"

section \<open>Status texts\<close>

text \<open>
  The status texts of \<open>check_link\<close>, code point by code point: U+2705 (check mark),
  U+274C (cross mark), U+26A0 U+FE0F (warning sign), U+23F1 U+FE0F (stopwatch),
  U+1F512 (lock), U+1F504 (arrows).
\<close>

definition check_mark :: pystr where
  "check_mark = [9989]"

definition status_OK :: pystr where
  "status_OK = check_mark @ ascii '' OK''"

definition status_CLIENT_ERROR :: pystr where
  "status_CLIENT_ERROR = [10060] @ ascii '' BROKEN (Client Error)''"

definition status_SERVER_ERROR :: pystr where
  "status_SERVER_ERROR = [9888, 65039] @ ascii ''  SERVER ERROR''"

definition status_UNKNOWN :: "int \<Rightarrow> pystr" where
  "status_UNKNOWN status_code = [9888, 65039] @ ascii ''  UNKNOWN ('' @ str_int status_code @ ascii '')''"

definition status_TIMEOUT :: pystr where
  "status_TIMEOUT = [9201, 65039] @ ascii ''  TIMEOUT''"

definition status_SSL_ERROR :: pystr where
  "status_SSL_ERROR = [128274] @ ascii '' SSL ERROR''"

definition status_CONNECTION_FAILED :: pystr where
  "status_CONNECTION_FAILED = [10060] @ ascii '' CONNECTION FAILED''"

definition status_TOO_MANY_REDIRECTS :: pystr where
  "status_TOO_MANY_REDIRECTS = [128260] @ ascii '' TOO MANY REDIRECTS''"

definition status_ERROR :: "pystr \<Rightarrow> pystr" where
  "status_ERROR detail = [10060] @ ascii '' ERROR: '' @ detail"

section \<open>\<open>LinkChecker.extract_links\<close>\<close>

text \<open>
  \<open>BeautifulSoup\<close> is outside the repository: \<open>find_all\<close> stands for
  \<open>BeautifulSoup(html, 'html.parser').find_all('a', href=True)\<close>, the anchors of the
  document in order, each with its \<open>href\<close> attribute and its \<open>get_text(strip=True)\<close>.
\<close>

record anchor =
  href :: pystr
  get_text :: pystr

text \<open>The body of the loop: \<open>if url and not url.startswith('#'): links.append((url, text))\<close>.\<close>

definition extract_links_step :: "(pystr \<times> pystr) list \<Rightarrow> anchor \<Rightarrow> (pystr \<times> pystr) list" where
  "extract_links_step links a =
     (if href a \<noteq> [] \<and> \<not> startswith (href a) (ascii ''#'')
      then links @ [(href a, get_text a)]
      else links)"

definition extract_links :: "(pystr \<Rightarrow> anchor list) \<Rightarrow> pystr \<Rightarrow> (pystr \<times> pystr) list" where
  "extract_links find_all html = foldl extract_links_step [] (find_all html)"

section \<open>\<open>LinkChecker.check_link\<close>\<close>

type_synonym outcome = "pystr \<times> int \<times> pystr"

text \<open>Lines 70 to 77: the status text of a status code.\<close>

definition status_of_code :: "int \<Rightarrow> pystr" where
  "status_of_code status_code =
     (if 200 \<le> status_code \<and> status_code < 400 then status_OK
      else if 400 \<le> status_code \<and> status_code < 500 then status_CLIENT_ERROR
      else if 500 \<le> status_code \<and> status_code < 600 then status_SERVER_ERROR
      else status_UNKNOWN status_code)"

text \<open>
  The body of the \<open>try\<close> (lines 62 to 79), with the requests it sends: either the tuple
  it returns or the exception a request raised.
\<close>

definition check_link_try :: "session \<Rightarrow> pystr \<Rightarrow> request list \<times> (py_exception + outcome)" where
  "check_link_try s url =
     (case head s url of
        Inl e \<Rightarrow> ([HEAD url], Inl e)
      | Inr response \<Rightarrow>
          if resp_status_code response = 405 \<or> resp_status_code response = 404 then
            (case get s url of
               Inl e \<Rightarrow> ([HEAD url, GET url], Inl e)
             | Inr response' \<Rightarrow>
                 ([HEAD url, GET url],
                  Inr (url, resp_status_code response', status_of_code (resp_status_code response'))))
          else
            ([HEAD url], Inr (url, resp_status_code response, status_of_code (resp_status_code response))))"

text \<open>
  The \<open>except\<close> clauses (lines 81 to 90), tried in the order written; an exception that
  no clause matches leaves the function.
\<close>

definition check_link_except :: "pystr \<Rightarrow> py_exception \<Rightarrow> py_exception + outcome" where
  "check_link_except url e =
     (if isinstance e Timeout then Inr (url, 0, status_TIMEOUT)
      else if isinstance e SSLError then Inr (url, 0, status_SSL_ERROR)
      else if isinstance e ConnectionError then Inr (url, 0, status_CONNECTION_FAILED)
      else if isinstance e TooManyRedirects then Inr (url, 0, status_TOO_MANY_REDIRECTS)
      else if isinstance e Exception then Inr (url, 0, status_ERROR (take 50 (exc_str e)))
      else Inl e)"

definition check_link_io :: "session \<Rightarrow> pystr \<Rightarrow> request list \<times> (py_exception + outcome)" where
  "check_link_io s url =
     (case check_link_try s url of
        (sent, Inr result) \<Rightarrow> (sent, Inr result)
      | (sent, Inl e) \<Rightarrow> (sent, check_link_except url e))"

definition check_link :: "session \<Rightarrow> pystr \<Rightarrow> py_exception + outcome" where
  "check_link s url = snd (check_link_io s url)"

section \<open>\<open>LinkChecker.check_all_links\<close>\<close>

text \<open>The dictionary built for each link; the entry \<open>'text'\<close> is the field \<open>link_text\<close>.\<close>

record result =
  url :: pystr
  link_text :: pystr
  status_code :: int
  status :: pystr

record results =
  working :: "result list"
  broken :: "result list"
  errors :: "result list"

definition empty_results :: results where
  "empty_results = \<lparr>working = [], broken = [], errors = []\<rparr>"

text \<open>
  Lines 111 to 119: the dictionary built for the completed future of link \<open>(u, t)\<close>
  whose task returned \<open>(check_url, code, st)\<close>.
\<close>

fun make_result :: "pystr \<times> pystr \<Rightarrow> outcome \<Rightarrow> result" where
  "make_result (u, t) (check_url, code, st) =
     \<lparr>url = u, link_text = t, status_code = code, status = st\<rparr>"

text \<open>Lines 121 to 130: the bucket the dictionary is appended to.\<close>

definition categorize :: "results \<Rightarrow> result \<Rightarrow> results" where
  "categorize results r =
     (if str_contains check_mark (status r) then
        results\<lparr>working := working results @ [r]\<rparr>
      else if status_code r \<ge> 400 \<and> status_code r < 600 then
        results\<lparr>broken := broken results @ [r]\<rparr>
      else
        results\<lparr>errors := errors results @ [r]\<rparr>)"

text \<open>
  The loop over the completed futures: \<open>future.result()\<close> re-raises what the task raised,
  which ends the loop and the function.
\<close>

fun for_completed :: "results \<Rightarrow> ((pystr \<times> pystr) \<times> (py_exception + outcome)) list \<Rightarrow> py_exception + results" where
  "for_completed results [] = Inr results"
| "for_completed results ((link, Inl e) # futures) = Inl e"
| "for_completed results ((link, Inr out) # futures) =
     for_completed (categorize results (make_result link out)) futures"

text \<open>
  \<open>as_completed\<close> yields every future once, in the order the tasks finish. That order is
  not fixed by the program, so it is a parameter: the schedule names, at each step, which
  of the pending futures finishes next (the number taken modulo how many are pending;
  when the schedule runs out, the futures finish in submission order).
\<close>

function as_completed :: "nat list \<Rightarrow> 'a list \<Rightarrow> 'a list" where
  "as_completed sched [] = []"
| "as_completed [] (f # fs) = f # as_completed [] fs"
| "as_completed (c # sched) (f # fs) =
     (f # fs) ! (c mod length (f # fs))
       # as_completed sched
           (take (c mod length (f # fs)) (f # fs) @ drop (Suc (c mod length (f # fs))) (f # fs))"
  by pat_completeness auto
termination
  by (relation "measure (\<lambda>(sched, fs). length fs)") auto

text \<open>
  The dictionary \<open>future_to_link\<close>, in submission order: one future per element of
  \<open>links\<close> (futures are distinct objects, so equal links keep separate entries). The
  network is not a function of the URL: \<open>net i\<close> is what the shared session does for
  the task submitted at position \<open>i\<close>.
\<close>

fun submit_all :: "(nat \<Rightarrow> session) \<Rightarrow> nat \<Rightarrow> (pystr \<times> pystr) list \<Rightarrow> ((pystr \<times> pystr) \<times> (py_exception + outcome)) list" where
  "submit_all net i [] = []"
| "submit_all net i ((u, t) # links) =
     ((u, t), check_link (net i) u) # submit_all net (Suc i) links"

datatype error = ValueError | Raised py_exception

text \<open>
  \<open>ThreadPoolExecutor(max_workers=max_workers)\<close> raises \<open>ValueError\<close> unless
  \<open>max_workers\<close> is positive. Printing is not modelled.
\<close>

definition check_all_links :: "(nat \<Rightarrow> session) \<Rightarrow> nat list \<Rightarrow> (pystr \<times> pystr) list \<Rightarrow> int \<Rightarrow> error + results" where
  "check_all_links net sched links max_workers =
     (if max_workers \<le> 0 then Inl ValueError
      else case for_completed empty_results (as_completed sched (submit_all net 0 links)) of
             Inl e \<Rightarrow> Inl (Raised e)
           | Inr results \<Rightarrow> Inr results)"

text \<open>The link a result was made for (its \<open>'url'\<close> and \<open>'text'\<close> entries).\<close>

definition link_of :: "result \<Rightarrow> pystr \<times> pystr" where
  "link_of r = (url r, link_text r)"

section \<open>What \<open>check_link\<close> returns\<close>

lemma isinstance_Exception: "isinstance e Exception"
  by (cases "exc_type e") (simp_all add: isinstance_def)

lemma check_link_except_Inr:
  "\<exists>st. check_link_except u e = Inr (u, 0, st)"
  by (simp add: check_link_except_def isinstance_Exception)

lemma check_link_try_url:
  "snd (check_link_try s u) = Inr out \<Longrightarrow> fst out = u"
  by (auto simp: check_link_try_def split: sum.splits if_splits)

lemma check_link_returns:
  "\<exists>c st. check_link s u = Inr (u, c, st)"
proof (cases "check_link_try s u")
  case (Pair sent r)
  show ?thesis
  proof (cases r)
    case (Inl e)
    with Pair check_link_except_Inr [of u e] show ?thesis
      by (auto simp: check_link_def check_link_io_def)
  next
    case (Inr out)
    with Pair check_link_try_url [of s u out] show ?thesis
      by (cases out) (auto simp: check_link_def check_link_io_def)
  qed
qed

lemma status_texts_distinct:
  "distinct [status_OK, status_CLIENT_ERROR, status_SERVER_ERROR, status_UNKNOWN c]"
  by (simp add: status_OK_def status_CLIENT_ERROR_def status_SERVER_ERROR_def
      status_UNKNOWN_def check_mark_def ascii_def)

lemma check_link_head_final:
  "head s u = Inr (Response c) \<Longrightarrow> c \<noteq> 404 \<Longrightarrow> c \<noteq> 405 \<Longrightarrow>
   check_link_io s u = ([HEAD u], Inr (u, c, status_of_code c))"
  by (simp add: check_link_io_def check_link_try_def)

lemma check_link_get_final:
  "head s u = Inr (Response h) \<Longrightarrow> h = 404 \<or> h = 405 \<Longrightarrow> get s u = Inr (Response c) \<Longrightarrow>
   check_link_io s u = ([HEAD u, GET u], Inr (u, c, status_of_code c))"
  by (auto simp add: check_link_io_def check_link_try_def)

lemma check_link_head_raises:
  "head s u = Inl e \<Longrightarrow> check_link_io s u = ([HEAD u], check_link_except u e)"
  by (simp add: check_link_io_def check_link_try_def)

lemma check_link_get_raises:
  "head s u = Inr (Response h) \<Longrightarrow> h = 404 \<or> h = 405 \<Longrightarrow> get s u = Inl e \<Longrightarrow>
   check_link_io s u = ([HEAD u, GET u], check_link_except u e)"
  by (auto simp add: check_link_io_def check_link_try_def)

lemma check_link_raised:
  assumes "head s u = Inl e \<or>
        (\<exists>r. head s u = Inr r \<and> (resp_status_code r = 404 \<or> resp_status_code r = 405) \<and>
             get s u = Inl e)"
  shows "check_link s u = check_link_except u e"
proof -
  from assms consider "head s u = Inl e"
    | h where "head s u = Inr (Response h)" "h = 404 \<or> h = 405" "get s u = Inl e"
    by (metis response.collapse)
  then show ?thesis
    by cases (simp_all add: check_link_def check_link_head_raises check_link_get_raises)
qed

lemma failure_texts_distinct:
  "distinct [status_TIMEOUT, status_SSL_ERROR, status_CONNECTION_FAILED,
     status_TOO_MANY_REDIRECTS, status_ERROR d]"
  by (simp add: status_TIMEOUT_def status_SSL_ERROR_def status_CONNECTION_FAILED_def
      status_TOO_MANY_REDIRECTS_def status_ERROR_def ascii_def)

text \<open>
  Claim C2. Whatever integer status code \<open>c\<close> the final response carries (the response to
  HEAD, or the response to GET when HEAD answered 404 or 405), \<open>check_link\<close> returns that
  code with exactly one status text: the OK text for \<open>200 \<le> c < 400\<close>, the client error
  text for \<open>400 \<le> c < 500\<close>, the server error text for \<open>500 \<le> c < 600\<close>, and the
  unknown text (with the code in it) for every other integer. The four texts differ from
  one another.
\<close>

theorem status_code_classification:
  assumes "(head s u = Inr (Response c) \<and> c \<noteq> 404 \<and> c \<noteq> 405) \<or>
           (\<exists>h. head s u = Inr (Response h) \<and> (h = 404 \<or> h = 405) \<and> get s u = Inr (Response c))"
  shows "\<exists>st. check_link s u = Inr (u, c, st) \<and>
           (200 \<le> c \<and> c < 400 \<longrightarrow> st = status_OK) \<and>
           (400 \<le> c \<and> c < 500 \<longrightarrow> st = status_CLIENT_ERROR) \<and>
           (500 \<le> c \<and> c < 600 \<longrightarrow> st = status_SERVER_ERROR) \<and>
           (c < 200 \<or> 600 \<le> c \<longrightarrow> st = status_UNKNOWN c) \<and>
           distinct [status_OK, status_CLIENT_ERROR, status_SERVER_ERROR, status_UNKNOWN c]"
proof -
  from assms have "check_link s u = Inr (u, c, status_of_code c)"
    by (auto simp: check_link_def check_link_head_final check_link_get_final)
  moreover have "200 \<le> c \<and> c < 400 \<longrightarrow> status_of_code c = status_OK"
    by (simp add: status_of_code_def)
  moreover have "400 \<le> c \<and> c < 500 \<longrightarrow> status_of_code c = status_CLIENT_ERROR"
    by (simp add: status_of_code_def)
  moreover have "500 \<le> c \<and> c < 600 \<longrightarrow> status_of_code c = status_SERVER_ERROR"
    by (simp add: status_of_code_def)
  moreover have "c < 200 \<or> 600 \<le> c \<longrightarrow> status_of_code c = status_UNKNOWN c"
    by (auto simp add: status_of_code_def)
  ultimately show ?thesis
    using status_texts_distinct [of c] by blast
qed

text \<open>
  The four ranges at the codes 200, 410 (after a 404 on HEAD), 503 and 100.
\<close>

theorem status_code_classification_witness:
  "check_link \<lparr>head = (\<lambda>u. Inr (Response 200)), get = (\<lambda>u. Inr (Response 200))\<rparr> (ascii ''http://a'')
     = Inr (ascii ''http://a'', 200, status_OK) \<and>
   check_link \<lparr>head = (\<lambda>u. Inr (Response 404)), get = (\<lambda>u. Inr (Response 410))\<rparr> (ascii ''http://a'')
     = Inr (ascii ''http://a'', 410, status_CLIENT_ERROR) \<and>
   check_link \<lparr>head = (\<lambda>u. Inr (Response 503)), get = (\<lambda>u. Inr (Response 200))\<rparr> (ascii ''http://a'')
     = Inr (ascii ''http://a'', 503, status_SERVER_ERROR) \<and>
   check_link \<lparr>head = (\<lambda>u. Inr (Response 100)), get = (\<lambda>u. Inr (Response 200))\<rparr> (ascii ''http://a'')
     = Inr (ascii ''http://a'', 100, status_UNKNOWN 100)"
  using
    status_code_classification [of "\<lparr>head = (\<lambda>u. Inr (Response 200)), get = (\<lambda>u. Inr (Response 200))\<rparr>"
      "ascii ''http://a''" 200]
    status_code_classification [of "\<lparr>head = (\<lambda>u. Inr (Response 404)), get = (\<lambda>u. Inr (Response 410))\<rparr>"
      "ascii ''http://a''" 410]
    status_code_classification [of "\<lparr>head = (\<lambda>u. Inr (Response 503)), get = (\<lambda>u. Inr (Response 200))\<rparr>"
      "ascii ''http://a''" 503]
    status_code_classification [of "\<lparr>head = (\<lambda>u. Inr (Response 100)), get = (\<lambda>u. Inr (Response 200))\<rparr>"
      "ascii ''http://a''" 100]
  by auto

text \<open>
  Claim C3. \<open>check_link\<close> sends a GET exactly when HEAD returned a response with status 404
  or 405; it never sends more than one GET; and when the GET returns a response, the
  tuple returned carries the GET response's status code and the status text of that code.
\<close>

theorem fallback_iff_404_405:
  "(GET u \<in> set (fst (check_link_io s u)) \<longleftrightarrow>
      (\<exists>r. head s u = Inr r \<and> (resp_status_code r = 404 \<or> resp_status_code r = 405))) \<and>
   length (filter is_GET (fst (check_link_io s u))) \<le> 1 \<and>
   (\<forall>r r'. head s u = Inr r \<and> (resp_status_code r = 404 \<or> resp_status_code r = 405) \<and>
       get s u = Inr r' \<longrightarrow>
       check_link s u = Inr (u, resp_status_code r', status_of_code (resp_status_code r')))"
proof (cases "head s u")
  case (Inl e)
  then show ?thesis by (simp add: check_link_head_raises)
next
  case (Inr r)
  obtain h where r: "r = Response h" by (cases r)
  show ?thesis
  proof (cases "h = 404 \<or> h = 405")
    case False
    with Inr r show ?thesis by (simp add: check_link_head_final)
  next
    case True
    show ?thesis
    proof (cases "get s u")
      case (Inl e)
      with Inr r True show ?thesis by (simp add: check_link_get_raises)
    next
      case (Inr r')
      obtain c where "r' = Response c" by (cases r')
      with Inr \<open>head s u = Inr r\<close> r True show ?thesis
        by (simp add: check_link_get_final check_link_def)
    qed
  qed
qed

text \<open>
  A 405 on HEAD is followed by one GET whose 200 decides the result; a 403 on HEAD is not
  followed by a GET.
\<close>

theorem fallback_iff_404_405_witness:
  "GET (ascii ''http://a'') \<in> set (fst (check_link_io
       \<lparr>head = (\<lambda>u. Inr (Response 405)), get = (\<lambda>u. Inr (Response 200))\<rparr> (ascii ''http://a''))) \<and>
   check_link \<lparr>head = (\<lambda>u. Inr (Response 405)), get = (\<lambda>u. Inr (Response 200))\<rparr> (ascii ''http://a'')
     = Inr (ascii ''http://a'', 200, status_of_code 200) \<and>
   GET (ascii ''http://a'') \<notin> set (fst (check_link_io
       \<lparr>head = (\<lambda>u. Inr (Response 403)), get = (\<lambda>u. Inr (Response 200))\<rparr> (ascii ''http://a'')))"
  using
    fallback_iff_404_405 [of "ascii ''http://a''"
      "\<lparr>head = (\<lambda>u. Inr (Response 405)), get = (\<lambda>u. Inr (Response 200))\<rparr>"]
    fallback_iff_404_405 [of "ascii ''http://a''"
      "\<lparr>head = (\<lambda>u. Inr (Response 403)), get = (\<lambda>u. Inr (Response 200))\<rparr>"]
  by simp

text \<open>
  Claim C4. \<open>check_link\<close> returns a tuple for every session and URL: no exception leaves it.
  When a request raises (HEAD, or GET after a 404 or 405), the tuple has status code 0 and a
  status text fixed by the class of the exception: the timeout text for \<open>Timeout\<close> and its
  subclasses (\<open>ConnectTimeout\<close> included, which is also a \<open>ConnectionError\<close>), the SSL text
  for \<open>SSLError\<close>, the connection text for the other \<open>ConnectionError\<close> classes, the
  redirect text for \<open>TooManyRedirects\<close>, and the error text with the first 50 characters of
  the message for everything else. The five texts differ from one another.
\<close>

theorem failure_outcomes:
  "(\<exists>out. check_link s u = Inr out) \<and>
   (\<forall>e. head s u = Inl e \<or>
        (\<exists>r. head s u = Inr r \<and> (resp_status_code r = 404 \<or> resp_status_code r = 405) \<and>
             get s u = Inl e) \<longrightarrow>
      (\<exists>st. check_link s u = Inr (u, 0, st) \<and>
         (exc_type e \<in> {ReadTimeout, ConnectTimeout, Timeout} \<longrightarrow> st = status_TIMEOUT) \<and>
         (exc_type e = SSLError \<longrightarrow> st = status_SSL_ERROR) \<and>
         (exc_type e \<in> {ProxyError, ConnectionError} \<longrightarrow> st = status_CONNECTION_FAILED) \<and>
         (exc_type e = TooManyRedirects \<longrightarrow> st = status_TOO_MANY_REDIRECTS) \<and>
         (exc_type e \<in> {RequestException, Exception} \<longrightarrow>
            st = status_ERROR (take 50 (exc_str e))))) \<and>
   distinct [status_TIMEOUT, status_SSL_ERROR, status_CONNECTION_FAILED,
     status_TOO_MANY_REDIRECTS, status_ERROR d]"
proof (intro conjI allI impI)
  from check_link_returns [of s u] show "\<exists>out. check_link s u = Inr out" by blast
next
  fix e
  assume "head s u = Inl e \<or>
    (\<exists>r. head s u = Inr r \<and> (resp_status_code r = 404 \<or> resp_status_code r = 405) \<and>
         get s u = Inl e)"
  then have run: "check_link s u = check_link_except u e"
    by (rule check_link_raised)
  show "\<exists>st. check_link s u = Inr (u, 0, st) \<and>
         (exc_type e \<in> {ReadTimeout, ConnectTimeout, Timeout} \<longrightarrow> st = status_TIMEOUT) \<and>
         (exc_type e = SSLError \<longrightarrow> st = status_SSL_ERROR) \<and>
         (exc_type e \<in> {ProxyError, ConnectionError} \<longrightarrow> st = status_CONNECTION_FAILED) \<and>
         (exc_type e = TooManyRedirects \<longrightarrow> st = status_TOO_MANY_REDIRECTS) \<and>
         (exc_type e \<in> {RequestException, Exception} \<longrightarrow>
            st = status_ERROR (take 50 (exc_str e)))"
    unfolding run
    by (cases "exc_type e") (simp_all add: check_link_except_def isinstance_def)
next
  show "distinct [status_TIMEOUT, status_SSL_ERROR, status_CONNECTION_FAILED,
     status_TOO_MANY_REDIRECTS, status_ERROR d]"
    by (rule failure_texts_distinct)
qed

text \<open>
  One exception of each kind, raised by HEAD or by the GET that follows a 404.
\<close>

theorem failure_outcomes_witness:
  "check_link \<lparr>head = (\<lambda>u. Inl \<lparr>exc_type = ConnectTimeout, exc_str = ascii ''timed out''\<rparr>),
               get = (\<lambda>u. Inr (Response 200))\<rparr> (ascii ''http://a'')
     = Inr (ascii ''http://a'', 0, status_TIMEOUT) \<and>
   check_link \<lparr>head = (\<lambda>u. Inr (Response 404)),
               get = (\<lambda>u. Inl \<lparr>exc_type = SSLError, exc_str = ascii ''bad certificate''\<rparr>)\<rparr> (ascii ''http://a'')
     = Inr (ascii ''http://a'', 0, status_SSL_ERROR) \<and>
   check_link \<lparr>head = (\<lambda>u. Inl \<lparr>exc_type = ProxyError, exc_str = ascii ''refused''\<rparr>),
               get = (\<lambda>u. Inr (Response 200))\<rparr> (ascii ''http://a'')
     = Inr (ascii ''http://a'', 0, status_CONNECTION_FAILED) \<and>
   check_link \<lparr>head = (\<lambda>u. Inl \<lparr>exc_type = TooManyRedirects, exc_str = ascii ''Exceeded 30 redirects.''\<rparr>),
               get = (\<lambda>u. Inr (Response 200))\<rparr> (ascii ''http://a'')
     = Inr (ascii ''http://a'', 0, status_TOO_MANY_REDIRECTS) \<and>
   check_link \<lparr>head = (\<lambda>u. Inl \<lparr>exc_type = Exception, exc_str = ascii ''boom''\<rparr>),
               get = (\<lambda>u. Inr (Response 200))\<rparr> (ascii ''http://a'')
     = Inr (ascii ''http://a'', 0, status_ERROR (ascii ''boom''))"
  using
    failure_outcomes [of "\<lparr>head = (\<lambda>u. Inl \<lparr>exc_type = ConnectTimeout, exc_str = ascii ''timed out''\<rparr>),
               get = (\<lambda>u. Inr (Response 200))\<rparr>" "ascii ''http://a''"]
    failure_outcomes [of "\<lparr>head = (\<lambda>u. Inr (Response 404)),
               get = (\<lambda>u. Inl \<lparr>exc_type = SSLError, exc_str = ascii ''bad certificate''\<rparr>)\<rparr>" "ascii ''http://a''"]
    failure_outcomes [of "\<lparr>head = (\<lambda>u. Inl \<lparr>exc_type = ProxyError, exc_str = ascii ''refused''\<rparr>),
               get = (\<lambda>u. Inr (Response 200))\<rparr>" "ascii ''http://a''"]
    failure_outcomes [of "\<lparr>head = (\<lambda>u. Inl \<lparr>exc_type = TooManyRedirects, exc_str = ascii ''Exceeded 30 redirects.''\<rparr>),
               get = (\<lambda>u. Inr (Response 200))\<rparr>" "ascii ''http://a''"]
    failure_outcomes [of "\<lparr>head = (\<lambda>u. Inl \<lparr>exc_type = Exception, exc_str = ascii ''boom''\<rparr>),
               get = (\<lambda>u. Inr (Response 200))\<rparr>" "ascii ''http://a''"]
  by (simp add: ascii_def)

text \<open>
  Claim C7. An exception that reaches the last \<open>except\<close> clause (it is an instance of none
  of \<open>Timeout\<close>, \<open>SSLError\<close>, \<open>ConnectionError\<close>, \<open>TooManyRedirects\<close>) gives status
  code 0 and the error text followed by \<open>str(e)[:50]\<close>: at most 50 characters of the message,
  so at most 59 characters in all, however long the message is.
\<close>

theorem catch_all_detail_truncated:
  assumes "head s u = Inl e \<or>
        (\<exists>r. head s u = Inr r \<and> (resp_status_code r = 404 \<or> resp_status_code r = 405) \<and>
             get s u = Inl e)"
    and "\<not> isinstance e Timeout" and "\<not> isinstance e SSLError"
    and "\<not> isinstance e ConnectionError" and "\<not> isinstance e TooManyRedirects"
  shows "\<exists>detail. check_link s u = Inr (u, 0, status_ERROR detail) \<and>
           detail = take 50 (exc_str e) \<and> length detail \<le> 50 \<and>
           length (status_ERROR detail) \<le> 59"
proof -
  from assms(1) have "check_link s u = check_link_except u e"
    by (rule check_link_raised)
  with assms(2-5) have "check_link s u = Inr (u, 0, status_ERROR (take 50 (exc_str e)))"
    by (simp add: check_link_except_def isinstance_Exception)
  then show ?thesis
    by (simp add: status_ERROR_def ascii_def)
qed

text \<open>
  A message of 60 characters is cut to its first 50.
\<close>

theorem catch_all_detail_truncated_witness:
  "length (exc_str \<lparr>exc_type = Exception, exc_str = replicate 60 97\<rparr>) = 60 \<and>
   \<not> isinstance \<lparr>exc_type = Exception, exc_str = replicate 60 97\<rparr> Timeout \<and>
   \<not> isinstance \<lparr>exc_type = Exception, exc_str = replicate 60 97\<rparr> SSLError \<and>
   \<not> isinstance \<lparr>exc_type = Exception, exc_str = replicate 60 97\<rparr> ConnectionError \<and>
   \<not> isinstance \<lparr>exc_type = Exception, exc_str = replicate 60 97\<rparr> TooManyRedirects \<and>
   check_link \<lparr>head = (\<lambda>u. Inl \<lparr>exc_type = Exception, exc_str = replicate 60 97\<rparr>),
               get = (\<lambda>u. Inr (Response 200))\<rparr> (ascii ''http://a'')
     = Inr (ascii ''http://a'', 0, status_ERROR (replicate 50 97))"
  using catch_all_detail_truncated [of
      "\<lparr>head = (\<lambda>u. Inl \<lparr>exc_type = Exception, exc_str = replicate 60 97\<rparr>),
        get = (\<lambda>u. Inr (Response 200))\<rparr>" "ascii ''http://a''"
      "\<lparr>exc_type = Exception, exc_str = replicate 60 97\<rparr>"]
  by (simp add: isinstance_def)

text \<open>
  Claim C10. The first component of the tuple \<open>check_link\<close> returns is the URL it was
  called with, whether the result comes from the HEAD response, from the GET response or
  from an \<open>except\<close> clause.
\<close>

theorem check_link_keeps_url:
  "\<exists>c st. check_link s u = Inr (u, c, st)"
  by (rule check_link_returns)

text \<open>
  A 404 on HEAD followed by a read timeout on GET still returns the URL.
\<close>

theorem check_link_keeps_url_witness:
  "\<exists>c st. check_link \<lparr>head = (\<lambda>u. Inr (Response 404)),
                        get = (\<lambda>u. Inl \<lparr>exc_type = ReadTimeout, exc_str = []\<rparr>)\<rparr>
             (ascii ''http://a'') = Inr (ascii ''http://a'', c, st)"
  using check_link_keeps_url [of
      "\<lparr>head = (\<lambda>u. Inr (Response 404)),
        get = (\<lambda>u. Inl \<lparr>exc_type = ReadTimeout, exc_str = []\<rparr>)\<rparr>" "ascii ''http://a''"]
  by simp

section \<open>What \<open>extract_links\<close> returns\<close>

lemma extract_links_foldl:
  "foldl extract_links_step acc as =
     acc @ map (\<lambda>a. (href a, get_text a))
             (filter (\<lambda>a. href a \<noteq> [] \<and> \<not> startswith (href a) (ascii ''#'')) as)"
  by (induction as arbitrary: acc) (simp_all add: extract_links_step_def)

lemma startswith_hash: "startswith x (ascii ''#'') \<longleftrightarrow> x \<noteq> [] \<and> hd x = 35"
  by (cases x) (simp_all add: startswith_def ascii_def)

text \<open>
  Claim C8. Every pair \<open>(url, text)\<close> returned by \<open>extract_links\<close> has a \<open>url\<close> that is
  not empty and does not start with \<open>#\<close> (code point 35): the result is exactly the anchors
  with such an \<open>href\<close>, in document order, so anchors with an empty or fragment-only
  \<open>href\<close> are left out.
\<close>

theorem extract_links_no_empty_no_fragment:
  "(\<forall>(x, t) \<in> set (extract_links find_all html). x \<noteq> [] \<and> hd x \<noteq> 35 \<and> \<not> startswith x (ascii ''#'')) \<and>
   extract_links find_all html =
     map (\<lambda>a. (href a, get_text a))
       (filter (\<lambda>a. href a \<noteq> [] \<and> \<not> startswith (href a) (ascii ''#'')) (find_all html))"
  by (auto simp: extract_links_def extract_links_foldl startswith_hash)

text \<open>
  Of an anchor to \<open>#top\<close>, an anchor with an empty \<open>href\<close> and an anchor to
  \<open>http://a\<close>, only the last is returned.
\<close>

theorem extract_links_no_empty_no_fragment_witness:
  "extract_links
     (\<lambda>html. [\<lparr>href = ascii ''#top'', get_text = ascii ''Top''\<rparr>,
              \<lparr>href = [], get_text = ascii ''Empty''\<rparr>,
              \<lparr>href = ascii ''http://a'', get_text = []\<rparr>]) (ascii ''<html>'')
     = [(ascii ''http://a'', [])] \<and>
   ascii ''http://a'' \<noteq> [] \<and> hd (ascii ''http://a'') \<noteq> 35 \<and>
   \<not> startswith (ascii ''http://a'') (ascii ''#'')"
  using extract_links_no_empty_no_fragment [of
      "\<lambda>html. [\<lparr>href = ascii ''#top'', get_text = ascii ''Top''\<rparr>,
              \<lparr>href = [], get_text = ascii ''Empty''\<rparr>,
              \<lparr>href = ascii ''http://a'', get_text = []\<rparr>]" "ascii ''<html>''"]
  by (simp add: ascii_def startswith_def)

section \<open>Completion order\<close>

text \<open>
  \<open>as_completed\<close> yields a permutation of the futures, commutes with a map over them, and
  every permutation is the completion order of some schedule.
\<close>

lemma remove_nth_mset:
  "i < length xs \<Longrightarrow> add_mset (xs ! i) (mset (take i xs @ drop (Suc i) xs)) = mset xs"
proof -
  assume "i < length xs"
  then have "xs = take i xs @ xs ! i # drop (Suc i) xs"
    by (rule id_take_nth_drop)
  then have "mset xs = mset (take i xs @ xs ! i # drop (Suc i) xs)"
    by simp
  then show ?thesis by simp
qed

lemma mset_as_completed: "mset (as_completed sched fs) = mset fs"
proof (induction sched fs rule: as_completed.induct)
  case (1 sched)
  show ?case by simp
next
  case (2 f fs)
  then show ?case by simp
next
  case (3 c sched f fs)
  have "c mod length (f # fs) < length (f # fs)" by simp
  from remove_nth_mset [OF this] 3 show ?case
    by (simp del: length_Cons nth_Cons' take_Cons' drop_Suc_Cons add: as_completed.simps(3))
qed

lemma as_completed_map: "as_completed sched (map g fs) = map g (as_completed sched fs)"
proof (induction sched fs rule: as_completed.induct)
  case (3 c sched f fs)
  have lt: "c mod length (f # fs) < length (f # fs)" by simp
  have "as_completed (c # sched) (map g (f # fs)) =
      map g (f # fs) ! (c mod length (f # fs))
       # as_completed sched (take (c mod length (f # fs)) (map g (f # fs))
            @ drop (Suc (c mod length (f # fs))) (map g (f # fs)))"
    by simp
  also have "\<dots> = g ((f # fs) ! (c mod length (f # fs)))
       # as_completed sched (map g (take (c mod length (f # fs)) (f # fs)
            @ drop (Suc (c mod length (f # fs))) (f # fs)))"
    using lt by (simp only: nth_map take_map drop_map map_append)
  also have "\<dots> = map g (as_completed (c # sched) (f # fs))"
    using 3 by simp
  finally show ?case .
qed simp_all

lemma as_completed_any_order:
  "mset ys = mset fs \<Longrightarrow> \<exists>sched. as_completed sched fs = ys"
proof (induction ys arbitrary: fs)
  case Nil
  then show ?case by simp
next
  case (Cons y ys)
  then have "y \<in> set fs" by (metis list.set_intros(1) set_mset_mset)
  then obtain i where i: "i < length fs" "fs ! i = y" by (auto simp: in_set_conv_nth)
  then obtain f fs' where fs: "fs = f # fs'" by (cases fs) auto
  have "add_mset y (mset (take i fs @ drop (Suc i) fs)) = add_mset y (mset ys)"
    using remove_nth_mset [OF i(1)] i(2) Cons.prems by simp
  then have "mset ys = mset (take i fs @ drop (Suc i) fs)" by simp
  from Cons.IH [OF this] obtain sched
    where sched: "as_completed sched (take i fs @ drop (Suc i) fs) = ys" ..
  have "i mod length (f # fs') = i" using i(1) fs by simp
  then have "as_completed (i # sched) (f # fs') = y # ys"
    using sched i(2) fs by (simp only: as_completed.simps(3))
  then show ?case using fs by blast
qed

section \<open>What \<open>check_all_links\<close> returns\<close>

text \<open>
  The loop over futures that all hold a result is a left fold of \<open>categorize\<close>; each
  bucket of the fold is a filter of the dictionaries in completion order.
\<close>

lemma for_completed_results:
  "for_completed rs (map (\<lambda>(l, out). (l, Inr out)) ps) =
     Inr (foldl categorize rs (map (\<lambda>(l, out). make_result l out) ps))"
  by (induction ps arbitrary: rs) (auto)

lemma categorize_fold_working:
  "working (foldl categorize rs xs) =
     working rs @ filter (\<lambda>r. str_contains check_mark (status r)) xs"
  by (induction xs arbitrary: rs) (simp_all add: categorize_def)

lemma categorize_fold_broken:
  "broken (foldl categorize rs xs) =
     broken rs @ filter (\<lambda>r. \<not> str_contains check_mark (status r) \<and>
                           400 \<le> status_code r \<and> status_code r < 600) xs"
  by (induction xs arbitrary: rs) (simp_all add: categorize_def)

lemma categorize_fold_errors:
  "errors (foldl categorize rs xs) =
     errors rs @ filter (\<lambda>r. \<not> str_contains check_mark (status r) \<and>
                           \<not> (400 \<le> status_code r \<and> status_code r < 600)) xs"
  by (induction xs arbitrary: rs) (simp_all add: categorize_def)

lemma three_way_partition:
  "mset (filter P xs) + mset (filter (\<lambda>x. \<not> P x \<and> Q x) xs)
     + mset (filter (\<lambda>x. \<not> P x \<and> \<not> Q x) xs) = mset xs"
  by (induction xs) auto

lemma categorize_fold_mset:
  "mset (working (foldl categorize empty_results xs)) +
   mset (broken (foldl categorize empty_results xs)) +
   mset (errors (foldl categorize empty_results xs)) = mset xs"
  by (simp only: categorize_fold_working categorize_fold_broken categorize_fold_errors
      empty_results_def results.simps append_Nil three_way_partition)

lemma link_of_make_result: "link_of (make_result l out) = l"
  by (cases l; cases out) (simp add: link_of_def)

lemma submit_all_results:
  "\<exists>outs. submit_all net i links = map (\<lambda>(l, out). (l, Inr out)) (zip links outs) \<and>
      length outs = length links"
proof (induction links arbitrary: i)
  case Nil
  show ?case by simp
next
  case (Cons l links)
  obtain u t where l: "l = (u, t)" by (cases l)
  from check_link_returns [of "net i" u] obtain out where out: "check_link (net i) u = Inr out"
    by blast
  from Cons [of "Suc i"] obtain outs
    where "submit_all net (Suc i) links = map (\<lambda>(l, out). (l, Inr out)) (zip links outs)"
      and "length outs = length links" by blast
  with l out have "submit_all net i (l # links) =
      map (\<lambda>(l, out). (l, Inr out)) (zip (l # links) (out # outs)) \<and>
      length (out # outs) = length (l # links)" by simp
  then show ?case by blast
qed

lemma check_all_links_fold:
  assumes "0 < max_workers"
  shows "\<exists>ps. map fst ps = links \<and>
     check_all_links net sched links max_workers =
       Inr (foldl categorize empty_results
              (map (\<lambda>(l, out). make_result l out) (as_completed sched ps)))"
proof -
  from submit_all_results [of net 0 links] obtain outs
    where sub: "submit_all net 0 links = map (\<lambda>(l, out). (l, Inr out)) (zip links outs)"
      and len: "length outs = length links" by blast
  have "map fst (zip links outs) = links" using len by simp
  moreover have "check_all_links net sched links max_workers =
       Inr (foldl categorize empty_results
              (map (\<lambda>(l, out). make_result l out) (as_completed sched (zip links outs))))"
    using assms by (simp add: check_all_links_def sub as_completed_map for_completed_results)
  ultimately show ?thesis by blast
qed

text \<open>
  Claim C1. For every list of links, every behaviour of the network, every completion
  order and every positive \<open>max_workers\<close>, \<open>check_all_links\<close> returns a report, and the links
  of the entries of its three buckets, taken together as a multiset, are exactly the input
  links: each occurrence of an input link is in one bucket, once. The bucket sizes add up
  to the number of input links.
\<close>

theorem check_all_links_partition:
  assumes "0 < max_workers"
  shows "\<exists>r. check_all_links net sched links max_workers = Inr r \<and>
     mset (map link_of (working r)) + mset (map link_of (broken r))
       + mset (map link_of (errors r)) = mset links \<and>
     length (working r) + length (broken r) + length (errors r) = length links"
proof -
  from check_all_links_fold [OF assms, of links net sched] obtain ps
    where ps: "map fst ps = links"
      and run: "check_all_links net sched links max_workers =
       Inr (foldl categorize empty_results
              (map (\<lambda>(l, out). make_result l out) (as_completed sched ps)))" by blast
  define xs where "xs = map (\<lambda>(l, out). make_result l out) (as_completed sched ps)"
  define r where "r = foldl categorize empty_results xs"
  have parts: "mset (working r) + mset (broken r) + mset (errors r) = mset xs"
    unfolding r_def by (rule categorize_fold_mset)
  have "map link_of xs = map fst (as_completed sched ps)"
    by (simp add: xs_def link_of_make_result case_prod_unfold)
  then have "mset (map link_of xs) = mset (map fst ps)"
    by (simp only: as_completed_map [symmetric] mset_as_completed)
  then have links: "mset (map link_of xs) = mset links" using ps by simp
  have "mset (map link_of (working r)) + mset (map link_of (broken r))
       + mset (map link_of (errors r)) = image_mset link_of (mset xs)"
    unfolding parts [symmetric] by simp
  then have a: "mset (map link_of (working r)) + mset (map link_of (broken r))
       + mset (map link_of (errors r)) = mset links" using links by simp
  have "size (mset (working r) + mset (broken r) + mset (errors r)) = size (mset xs)"
    using parts by simp
  moreover have "size (mset (map link_of xs)) = size (mset links)"
    using links by simp
  then have "size (mset xs) = size (mset links)"
    by simp
  ultimately have b: "length (working r) + length (broken r) + length (errors r) = length links"
    by simp
  from run a b show ?thesis unfolding r_def xs_def by blast
qed

text \<open>
  Two links, the second finishing first: one response 200, one response 500.
\<close>

theorem check_all_links_partition_witness:
  "(0::int) < 10 \<and>
   (\<exists>r. check_all_links (\<lambda>i. \<lparr>head = (\<lambda>u. Inr (Response (if i = 0 then 200 else 500))),
                                get = (\<lambda>u. Inr (Response 200))\<rparr>) [1]
           [(ascii ''http://a'', ascii ''A''), (ascii ''http://b'', ascii ''B'')] 10 = Inr r \<and>
        mset (map link_of (working r)) + mset (map link_of (broken r))
          + mset (map link_of (errors r))
          = mset [(ascii ''http://a'', ascii ''A''), (ascii ''http://b'', ascii ''B'')] \<and>
        length (working r) + length (broken r) + length (errors r) =
          length [(ascii ''http://a'', ascii ''A''), (ascii ''http://b'', ascii ''B'')])"
  using check_all_links_partition [of 10
      "\<lambda>i. \<lparr>head = (\<lambda>u. Inr (Response (if i = 0 then 200 else 500))),
            get = (\<lambda>u. Inr (Response 200))\<rparr>" "[1]"
      "[(ascii ''http://a'', ascii ''A''), (ascii ''http://b'', ascii ''B'')]"]
  by simp

text \<open>
  Claim C6. Running the loop over two orderings of the same multiset of (link, tuple)
  pairs gives working, broken and errors buckets that are equal as multisets.
\<close>

theorem aggregation_order_independent:
  assumes "mset ps = mset qs"
  shows "\<exists>r r'. for_completed empty_results (map (\<lambda>(l, out). (l, Inr out)) ps) = Inr r \<and>
          for_completed empty_results (map (\<lambda>(l, out). (l, Inr out)) qs) = Inr r' \<and>
          mset (working r) = mset (working r') \<and>
          mset (broken r) = mset (broken r') \<and>
          mset (errors r) = mset (errors r')"
proof -
  define xs where "xs = map (\<lambda>(l, out). make_result l out) ps"
  define ys where "ys = map (\<lambda>(l, out). make_result l out) qs"
  have "mset xs = mset ys"
    using assms by (simp add: xs_def ys_def)
  then have same: "mset (filter P xs) = mset (filter P ys)" for P
    by simp
  have run_ps: "for_completed empty_results (map (\<lambda>(l, out). (l, Inr out)) ps) =
      Inr (foldl categorize empty_results xs)"
    by (simp only: for_completed_results xs_def)
  have run_qs: "for_completed empty_results (map (\<lambda>(l, out). (l, Inr out)) qs) =
      Inr (foldl categorize empty_results ys)"
    by (simp only: for_completed_results ys_def)
  have "mset (working (foldl categorize empty_results xs)) =
      mset (working (foldl categorize empty_results ys))"
    by (simp only: categorize_fold_working mset_append same)
  moreover have "mset (broken (foldl categorize empty_results xs)) =
      mset (broken (foldl categorize empty_results ys))"
    by (simp only: categorize_fold_broken mset_append same)
  moreover have "mset (errors (foldl categorize empty_results xs)) =
      mset (errors (foldl categorize empty_results ys))"
    by (simp only: categorize_fold_errors mset_append same)
  ultimately show ?thesis
    using run_ps run_qs by blast
qed

text \<open>
  Two pairs in both orders.
\<close>

theorem aggregation_order_independent_witness:
  "mset [((ascii ''http://a'', ascii ''A''), (ascii ''http://a'', 200::int, status_OK)),
         ((ascii ''http://b'', ascii ''B''), (ascii ''http://b'', 0, status_TIMEOUT))]
   = mset [((ascii ''http://b'', ascii ''B''), (ascii ''http://b'', 0, status_TIMEOUT)),
           ((ascii ''http://a'', ascii ''A''), (ascii ''http://a'', 200, status_OK))] \<and>
   (\<exists>r r'.
      for_completed empty_results
        [((ascii ''http://a'', ascii ''A''), Inr (ascii ''http://a'', 200, status_OK)),
         ((ascii ''http://b'', ascii ''B''), Inr (ascii ''http://b'', 0, status_TIMEOUT))] = Inr r \<and>
      for_completed empty_results
        [((ascii ''http://b'', ascii ''B''), Inr (ascii ''http://b'', 0, status_TIMEOUT)),
         ((ascii ''http://a'', ascii ''A''), Inr (ascii ''http://a'', 200, status_OK))] = Inr r' \<and>
      mset (working r) = mset (working r') \<and>
      mset (broken r) = mset (broken r') \<and>
      mset (errors r) = mset (errors r'))"
proof -
  have perm: "mset [((ascii ''http://a'', ascii ''A''), (ascii ''http://a'', 200::int, status_OK)),
         ((ascii ''http://b'', ascii ''B''), (ascii ''http://b'', 0, status_TIMEOUT))]
   = mset [((ascii ''http://b'', ascii ''B''), (ascii ''http://b'', 0, status_TIMEOUT)),
           ((ascii ''http://a'', ascii ''A''), (ascii ''http://a'', 200, status_OK))]"
    by simp
  from aggregation_order_independent [OF perm] have "\<exists>r r'.
      for_completed empty_results
        [((ascii ''http://a'', ascii ''A''), Inr (ascii ''http://a'', 200, status_OK)),
         ((ascii ''http://b'', ascii ''B''), Inr (ascii ''http://b'', 0, status_TIMEOUT))] = Inr r \<and>
      for_completed empty_results
        [((ascii ''http://b'', ascii ''B''), Inr (ascii ''http://b'', 0, status_TIMEOUT)),
         ((ascii ''http://a'', ascii ''A''), Inr (ascii ''http://a'', 200, status_OK))] = Inr r' \<and>
      mset (working r) = mset (working r') \<and>
      mset (broken r) = mset (broken r') \<and>
      mset (errors r) = mset (errors r')"
    by (simp only: list.map prod.case)
  with perm show ?thesis by (rule conjI)
qed

text \<open>
  Claim C9. For the empty list of links (and a positive \<open>max_workers\<close>),
  \<open>check_all_links\<close> returns the report whose three buckets are empty.
\<close>

theorem check_all_links_empty:
  assumes "0 < max_workers"
  shows "check_all_links net sched [] max_workers = Inr \<lparr>working = [], broken = [], errors = []\<rparr>"
  using assms by (simp add: check_all_links_def empty_results_def)

text \<open>
  The empty list with the default of 10 workers.
\<close>

theorem check_all_links_empty_witness:
  "(0::int) < 10 \<and>
   check_all_links (\<lambda>i. \<lparr>head = (\<lambda>u. Inr (Response 200)), get = (\<lambda>u. Inr (Response 200))\<rparr>)
     [] [] 10 = Inr \<lparr>working = [], broken = [], errors = []\<rparr>"
  using check_all_links_empty [of 10
      "\<lambda>i. \<lparr>head = (\<lambda>u. Inr (Response 200)), get = (\<lambda>u. Inr (Response 200))\<rparr>" "[]"]
  by simp

section \<open>The check mark test of the loop\<close>

lemma str_contains_singleton: "str_contains [m] xs \<longleftrightarrow> m \<in> set xs"
  by (induction xs) (auto simp: startswith_def)

lemma str_digits_range: "x \<in> set (str_digits n) \<Longrightarrow> x < 58"
proof (induction n rule: str_digits.induct)
  case (1 n)
  show ?case
  proof (cases "n < 10")
    case True
    with "1.prems" show ?thesis by (simp add: str_digits.simps [of n])
  next
    case False
    with "1.prems" have "x \<in> set (str_digits (n div 10)) \<or> x = 48 + n mod 10"
      by (auto simp add: str_digits.simps [of n])
    then show ?thesis
    proof
      assume "x \<in> set (str_digits (n div 10))"
      with False "1.IH" show ?thesis by simp
    next
      assume "x = 48 + n mod 10"
      moreover have "n mod 10 < 10" by simp
      ultimately show ?thesis by linarith
    qed
  qed
qed

lemma str_int_range: "x \<in> set (str_int i) \<Longrightarrow> x < 58"
  by (auto simp: str_int_def dest: str_digits_range split: if_splits)

lemma check_mark_status_of_code:
  "str_contains check_mark (status_of_code c) \<longleftrightarrow> 200 \<le> c \<and> c < 400"
proof -
  have "9989 \<notin> set (str_int c)"
    using str_int_range [of 9989 c] by auto
  then show ?thesis
    by (simp add: status_of_code_def check_mark_def str_contains_singleton status_OK_def
        status_CLIENT_ERROR_def status_SERVER_ERROR_def status_UNKNOWN_def ascii_def)
qed

lemma check_mark_failure_texts:
  "\<not> str_contains check_mark status_TIMEOUT"
  "\<not> str_contains check_mark status_SSL_ERROR"
  "\<not> str_contains check_mark status_CONNECTION_FAILED"
  "\<not> str_contains check_mark status_TOO_MANY_REDIRECTS"
  "str_contains check_mark (status_ERROR d) \<longleftrightarrow> str_contains check_mark d"
  by (simp_all add: check_mark_def str_contains_singleton status_TIMEOUT_def
      status_SSL_ERROR_def status_CONNECTION_FAILED_def status_TOO_MANY_REDIRECTS_def
      status_ERROR_def ascii_def startswith_def)

lemma check_link_shape:
  "(\<exists>c. check_link s u = Inr (u, c, status_of_code c)) \<or>
   (\<exists>e. check_link s u = check_link_except u e)"
proof (cases "head s u")
  case (Inl e)
  then have "check_link s u = check_link_except u e"
    by (simp add: check_link_def check_link_head_raises)
  then show ?thesis by blast
next
  case (Inr r)
  obtain h where r: "r = Response h" by (cases r)
  show ?thesis
  proof (cases "h = 404 \<or> h = 405")
    case False
    with Inr r show ?thesis by (simp add: check_link_def check_link_head_final)
  next
    case True
    show ?thesis
    proof (cases "get s u")
      case (Inl e)
      with \<open>head s u = Inr r\<close> r True have "check_link s u = check_link_except u e"
        by (simp add: check_link_def check_link_get_raises)
      then show ?thesis by blast
    next
      case (Inr r')
      obtain c where "r' = Response c" by (cases r')
      with Inr \<open>head s u = Inr r\<close> r True show ?thesis
        by (simp add: check_link_def check_link_get_final)
    qed
  qed
qed

lemma check_link_except_shape:
  "check_link_except u e = Inr (cu, c, st) \<Longrightarrow>
     st \<in> {status_TIMEOUT, status_SSL_ERROR, status_CONNECTION_FAILED,
            status_TOO_MANY_REDIRECTS, status_ERROR (take 50 (exc_str e))}"
  by (auto simp: check_link_except_def split: if_splits)

lemma check_mark_status_OK: "str_contains check_mark status_OK"
  by (simp add: status_OK_def check_mark_def startswith_def)

lemma status_of_code_OK: "status_of_code c = status_OK \<longleftrightarrow> 200 \<le> c \<and> c < 400"
  using status_texts_distinct [of c] by (auto simp: status_of_code_def)

text \<open>
  For the tuples \<open>check_link\<close> returns, the test of line 122 (is the check mark in the
  status text) singles out the status text of a response in \<open>[200, 400)\<close>, unless the text is
  that of the last \<open>except\<close> clause and the exception's message brings a check mark of its
  own. Apart from that case the loop follows the rule: the OK text to \<open>working\<close>, else a
  status code in \<open>[400, 600)\<close> to \<open>broken\<close>, else \<open>errors\<close>.
\<close>

lemma check_mark_iff_OK:
  assumes "check_link s u = Inr (cu, c, st)"
    and "\<forall>d. st = status_ERROR d \<longrightarrow> \<not> str_contains check_mark d"
  shows "str_contains check_mark st \<longleftrightarrow> st = status_OK"
proof -
  from check_link_shape [of s u] consider
      c' where "check_link s u = Inr (u, c', status_of_code c')"
    | e where "check_link s u = check_link_except u e" by blast
  then show ?thesis
  proof cases
    case 1
    with assms(1) have "st = status_of_code c'" by auto
    then show ?thesis
      by (simp add: check_mark_status_of_code status_of_code_OK)
  next
    case 2
    with assms(1) have "check_link_except u e = Inr (cu, c, st)" by simp
    from check_link_except_shape [OF this] assms(2) have "\<not> str_contains check_mark st"
      by (auto simp: check_mark_failure_texts)
    moreover from this have "st \<noteq> status_OK"
      using check_mark_status_OK by auto
    ultimately show ?thesis by simp
  qed
qed

lemma bucket_rule_except_marked_detail:
  assumes "check_link s u = Inr (cu, c, st)"
    and "\<forall>d. st = status_ERROR d \<longrightarrow> \<not> str_contains check_mark d"
  shows "categorize rs (make_result l (cu, c, st)) =
     (if st = status_OK then rs\<lparr>working := working rs @ [make_result l (cu, c, st)]\<rparr>
      else if 400 \<le> c \<and> c < 600 then rs\<lparr>broken := broken rs @ [make_result l (cu, c, st)]\<rparr>
      else rs\<lparr>errors := errors rs @ [make_result l (cu, c, st)]\<rparr>)"
  using check_mark_iff_OK [OF assms] by (cases l) (simp add: categorize_def)

text \<open>
  Claim C5. The rule fails for the error text of the last \<open>except\<close> clause. For the link
  whose URL is the single character U+2705, \<open>requests\<close> raises \<open>MissingSchema\<close> (a
  \<open>RequestException\<close>) with the message
  \<open>Invalid URL '\<checkmark>': No scheme supplied. Perhaps you meant https://\<checkmark>?\<close>; \<open>check_link\<close>
  returns status code 0 and the error text with the first 50 characters of that message,
  and \<open>check_all_links\<close> appends the entry to \<open>working\<close>, not to \<open>errors\<close>.
\<close>

theorem other_error_with_check_mark_is_working:
  "check_all_links
     (\<lambda>i. \<lparr>head = (\<lambda>u. Inl \<lparr>exc_type = RequestException,
                exc_str = ascii ''Invalid URL '' @ [39, 9989, 39] @
                  ascii '': No scheme supplied. Perhaps you meant https://'' @ [9989] @ ascii ''?''\<rparr>),
           get = (\<lambda>u. Inr (Response 200))\<rparr>)
     [] [([9989], ascii ''x'')] 10 =
   Inr \<lparr>working = [\<lparr>url = [9989], link_text = ascii ''x'', status_code = 0,
                    status = [10060] @ ascii '' ERROR: Invalid URL '' @ [39, 9989, 39] @
                       ascii '': No scheme supplied. Perhaps you m''\<rparr>],
        broken = [], errors = []\<rparr>"
  by (simp add: check_all_links_def check_link_def check_link_io_def check_link_try_def
      check_link_except_def isinstance_def empty_results_def categorize_def status_ERROR_def
      ascii_def check_mark_def startswith_def)

end
